theory Spec2Isabelle
  imports Main
begin

section \<open>Strings\<close>

text \<open>
  A Python \<^verbatim>\<open>str\<close> is a sequence of Unicode code points, and \<^verbatim>\<open>len\<close> counts code
  points.  The ellipsis U+2026 that \<^verbatim>\<open>shorten_label\<close> appends is one code point, so
  strings are lists of code points here; \<open>u\<close> embeds an ASCII literal.
\<close>

type_synonym pystr = "nat list"

definition u :: "string \<Rightarrow> pystr" where
  "u s = map of_char s"

text \<open>
  The characters that \<^verbatim>\<open>\s\<close> of \<^verbatim>\<open>re\<close> (on a \<^verbatim>\<open>str\<close> pattern) and \<^verbatim>\<open>str.strip()\<close>
  treat as whitespace: both use \<^verbatim>\<open>Py_UNICODE_ISSPACE\<close>.
\<close>

definition is_space :: "nat \<Rightarrow> bool" where
  "is_space c \<longleftrightarrow>
     (9 \<le> c \<and> c \<le> 13) \<or> (28 \<le> c \<and> c \<le> 32) \<or> c = 133 \<or> c = 160 \<or> c = 5760 \<or>
     (8192 \<le> c \<and> c \<le> 8202) \<or> c = 8232 \<or> c = 8233 \<or> c = 8239 \<or> c = 8287 \<or> c = 12288"

definition lstrip :: "pystr \<Rightarrow> pystr" where
  "lstrip s = dropWhile is_space s"

definition rstrip :: "pystr \<Rightarrow> pystr" where
  "rstrip s = rev (dropWhile is_space (rev s))"

definition strip :: "pystr \<Rightarrow> pystr" where
  "strip s = rstrip (lstrip s)"

text \<open>\<^verbatim>\<open>s[:k]\<close>: a negative \<open>k\<close> counts from the end.\<close>

definition slice_to :: "pystr \<Rightarrow> int \<Rightarrow> pystr" where
  "slice_to s k = (if k < 0 then take (nat (int (length s) + k)) s else take (nat k) s)"

text \<open>\<^verbatim>\<open>sep.join(xs)\<close>.\<close>

fun join :: "pystr \<Rightarrow> pystr list \<Rightarrow> pystr" where
  "join sep [] = []"
| "join sep [x] = x"
| "join sep (x # y # ys) = x @ sep @ join sep (y # ys)"

section \<open>Text normalizer\<close>

text \<open>\<^verbatim>\<open>re.sub(r"\s+", " ", s)\<close>: every maximal run of whitespace becomes one space.\<close>

function sub_ws :: "pystr \<Rightarrow> pystr" where
  "sub_ws [] = []"
| "sub_ws (c # cs) =
     (if is_space c then 32 # sub_ws (dropWhile is_space cs) else c # sub_ws cs)"
  by pat_completeness auto
termination
  by (relation "measure length") (auto simp: less_Suc_eq_le length_dropWhile_le)

definition norm_ws :: "pystr \<Rightarrow> pystr" where
  "norm_ws s = strip (sub_ws s)"

definition ELLIPSIS :: nat where
  "ELLIPSIS = 8230"

text \<open>The class \<^verbatim>\<open>[,;:\u2013\u2014\-]\<close>.\<close>

definition is_punct :: "nat \<Rightarrow> bool" where
  "is_punct c \<longleftrightarrow> c = 44 \<or> c = 59 \<or> c = 58 \<or> c = 8211 \<or> c = 8212 \<or> c = 45"

text \<open>
  \<^verbatim>\<open>re.search(r"[,;:\u2013\u2014\-]\s", r)\<close>: the start of the leftmost match, the first
  index whose character is in the class and whose successor is whitespace.
\<close>

fun search_punct_ws :: "pystr \<Rightarrow> nat option" where
  "search_punct_ws (c # d # cs) =
     (if is_punct c \<and> is_space d then Some 0
      else map_option Suc (search_punct_ws (d # cs)))"
| "search_punct_ws _ = None"

definition shorten_label :: "pystr \<Rightarrow> int \<Rightarrow> pystr" where
  "shorten_label s0 limit =
     (let s = norm_ws s0 in
      if int (length s) \<le> limit then s
      else case search_punct_ws (rev (slice_to s limit)) of
             Some k \<Rightarrow> (let cut = limit - int k in norm_ws (slice_to s cut) @ [ELLIPSIS])
           | None \<Rightarrow> rstrip (slice_to s limit) @ [ELLIPSIS])"

section \<open>Chunk packer\<close>

text \<open>\<^verbatim>\<open>s.startswith(p)\<close>, \<^verbatim>\<open>sub in s\<close> and \<^verbatim>\<open>s.split("\n")\<close>.\<close>

definition startswith :: "pystr \<Rightarrow> pystr \<Rightarrow> bool" where
  "startswith s p \<longleftrightarrow> take (length p) s = p"

fun contains :: "pystr \<Rightarrow> pystr \<Rightarrow> bool" where
  "contains sub [] \<longleftrightarrow> sub = []"
| "contains sub (c # cs) \<longleftrightarrow> startswith (c # cs) sub \<or> contains sub cs"

definition NL :: pystr where
  "NL = [10]"

fun split_nl :: "pystr \<Rightarrow> pystr list" where
  "split_nl [] = [[]]"
| "split_nl (c # cs) =
     (if c = 10 then [] # split_nl cs
      else (case split_nl cs of [] \<Rightarrow> [[c]] | ln # lns \<Rightarrow> (c # ln) # lns))"

text \<open>A block is \<^verbatim>\<open>(breadcrumb_path, text)\<close>.\<close>

type_synonym block = "pystr list \<times> pystr"

text \<open>
  \<^verbatim>\<open>textwrap.wrap\<close> belongs to the Python standard library, not to the repository:
  the packer takes it as the parameter \<open>wrap\<close>, called as \<open>wrap text width\<close>, and
  every theorem about the packer holds for every such function.
\<close>

type_synonym wrapper = "pystr \<Rightarrow> int \<Rightarrow> pystr list"

text \<open>The variables that the closures of \<^verbatim>\<open>chunk_blocks\<close> share.\<close>

record packer =
  chunks :: "pystr list"
  current_lines :: "pystr list"
  current_breadcrumb :: "pystr list option"
  current_len :: int

definition breadcrumb_header :: "pystr list \<Rightarrow> pystr" where
  "breadcrumb_header path =
     (if path \<noteq> [] then join (u '' > '') (map (\<lambda>p. shorten_label p 80) path) else [])"

text \<open>\<^verbatim>\<open>"\n".join(current_lines).strip()\<close>, the text of a chunk.\<close>

definition chunk_text :: "pystr list \<Rightarrow> pystr" where
  "chunk_text ls = strip (join NL ls)"

text \<open>\<^verbatim>\<open>start_new_chunk\<close> returns the length it counts for the header and the new state.\<close>

definition start_new_chunk :: "pystr list \<Rightarrow> packer \<Rightarrow> int \<times> packer" where
  "start_new_chunk path st =
     (let st1 = (if current_lines st \<noteq> []
                 then st\<lparr>chunks := chunks st @ [chunk_text (current_lines st)]\<rparr> else st);
          st2 = st1\<lparr>current_lines := [], current_breadcrumb := Some path\<rparr>;
          hdr = breadcrumb_header path
      in if hdr \<noteq> []
         then (let line = u ''### '' @ hdr
               in (int (length line) + 1, st2\<lparr>current_lines := [line]\<rparr>))
         else (0, st2))"

definition add_line :: "int \<Rightarrow> pystr list \<Rightarrow> packer \<Rightarrow> pystr \<Rightarrow> packer" where
  "add_line limit path st seg =
     (let st1 = (if current_len st + int (length seg) + 1 > limit
                 then (let st' = snd (start_new_chunk path st)
                       in st'\<lparr>current_len :=
                              (if current_lines st' \<noteq> []
                               then int (length (hd (current_lines st'))) + 1 else 0)\<rparr>)
                 else st)
      in st1\<lparr>current_lines := current_lines st1 @ [seg],
              current_len := current_len st1 + int (length seg) + 1\<rparr>)"

definition is_qa_block :: "pystr \<Rightarrow> bool" where
  "is_qa_block text \<longleftrightarrow> startswith (lstrip text) (u ''Q:'') \<and> contains (10 # u ''A:'') text"

text \<open>\<^verbatim>\<open>textwrap.wrap(ln, width=max(40, limit - 20)) or [ln]\<close>.\<close>

definition wrapped :: "wrapper \<Rightarrow> int \<Rightarrow> pystr \<Rightarrow> pystr list" where
  "wrapped wrap limit ln =
     (let w = wrap ln (max 40 (limit - 20)) in if w \<noteq> [] then w else [ln])"

text \<open>
  \<^verbatim>\<open>re.match(r"^(\s*-\s+)", line)\<close>: group 1 of the match, and the empty string when
  there is none (the initial value of \<^verbatim>\<open>bullet_prefix\<close>).
\<close>

definition bullet_prefix :: "pystr \<Rightarrow> pystr" where
  "bullet_prefix line =
     (case dropWhile is_space line of
        [] \<Rightarrow> []
      | c # r \<Rightarrow>
          if c = 45 \<and> takeWhile is_space r \<noteq> []
          then takeWhile is_space line @ [45] @ takeWhile is_space r
          else [])"

text \<open>One line of a multi-line block: the body of the loop over \<^verbatim>\<open>text.split("\n")\<close>.\<close>

definition add_text_line :: "wrapper \<Rightarrow> int \<Rightarrow> pystr list \<Rightarrow> packer \<Rightarrow> pystr \<Rightarrow> packer" where
  "add_text_line wrap limit path st ln0 =
     (let ln = rstrip ln0
      in if int (length ln) + current_len st > limit
         then foldl (add_line limit path) st (wrapped wrap limit ln)
         else add_line limit path st ln)"

text \<open>The body of the loop over the blocks.\<close>

definition chunk_block :: "wrapper \<Rightarrow> int \<Rightarrow> packer \<Rightarrow> block \<Rightarrow> packer" where
  "chunk_block wrap limit st0 b =
     (let path = fst b; text = snd b;
          st1 = (if current_breadcrumb st0 \<noteq> Some path
                 then (let r = start_new_chunk path st0 in (snd r)\<lparr>current_len := fst r\<rparr>)
                 else st0);
          st2 = (if is_qa_block text \<and> current_len st1 + int (length text) + 1 > limit
                 then (let r = start_new_chunk path st1 in (snd r)\<lparr>current_len := fst r\<rparr>)
                 else st1)
      in if 10 \<in> set text
         then foldl (add_text_line wrap limit path) st2 (split_nl text)
         else if int (length text) + current_len st2 > limit
         then (let bp = bullet_prefix text
               in foldl (\<lambda>st w. add_line limit path st
                                   (if bp \<noteq> [] \<and> \<not> startswith w bp then bp @ w else w))
                    st2 (wrapped wrap limit text))
         else add_line limit path st2 text)"

definition packer_init :: packer where
  "packer_init = \<lparr>chunks = [], current_lines = [], current_breadcrumb = None, current_len = 0\<rparr>"

definition flush :: "packer \<Rightarrow> pystr list" where
  "flush st =
     (if current_lines st \<noteq> [] then chunks st @ [chunk_text (current_lines st)] else chunks st)"

definition chunk_blocks :: "wrapper \<Rightarrow> block list \<Rightarrow> int \<Rightarrow> pystr list" where
  "chunk_blocks wrap blocks limit = flush (foldl (chunk_block wrap limit) packer_init blocks)"

text \<open>
  What \<^verbatim>\<open>textwrap.wrap\<close> returns for a text that needs no wrapping: a non-empty text
  of at most \<open>width\<close> characters, with no whitespace at either end and single spaces
  inside, comes back as the one line it is.  Used for concrete runs only, on such texts.
\<close>

definition wrap_fitting :: wrapper where
  "wrap_fitting text width = [text]"

section \<open>Document writer\<close>

text \<open>
  The text that \<^verbatim>\<open>process_files\<close> writes for one document: \<open>base_name\<close> is the file's
  base name, \<open>run_tag\<close> the value of \<^verbatim>\<open>RUN_TAG\<close>, \<open>url\<close> the \<^verbatim>\<open>url\<close> entry of the
  side-car metadata when there is one.
\<close>

definition write_ctxt :: "pystr \<Rightarrow> pystr \<Rightarrow> pystr option \<Rightarrow> pystr list \<Rightarrow> pystr" where
  "write_ctxt base_name run_tag url cs =
     (let url_line = (case url of None \<Rightarrow> []
                      | Some v \<Rightarrow> u ''`source_url: '' @ v @ u ''`'' @ NL);
          tags_value = u ''policies'' @ (if run_tag \<noteq> [] then u '', '' @ run_tag else [])
      in u ''`version: 1`'' @ NL @
         u ''`title: '' @ base_name @ u ''`'' @ NL @
         u ''`tags: ['' @ tags_value @ u '']`'' @ NL @
         (if url_line \<noteq> [] then url_line else []) @
         NL @
         concat (map (\<lambda>c. strip c @ NL @ NL) cs))"

section \<open>Document tree\<close>

text \<open>
  The tree that BeautifulSoup's \<^verbatim>\<open>html.parser\<close> builds: a \<^verbatim>\<open>NavigableString\<close> holds text,
  a \<^verbatim>\<open>Tag\<close> has a name, attributes and contents.  The number of a tag stands for
  \<^verbatim>\<open>id(node)\<close>, the identity that \<^verbatim>\<open>skipped_ids\<close> records; the tags of a document have
  different numbers.  The parser itself belongs to the library and is not modelled:
  the extractor is given the parsed tree.
\<close>

datatype node = NavigableString pystr | Tag nat pystr "(pystr \<times> pystr) list" "node list"

fun contents :: "node \<Rightarrow> node list" where
  "contents (Tag i n a cs) = cs"
| "contents (NavigableString s) = []"

fun name :: "node \<Rightarrow> pystr" where
  "name (Tag i n a cs) = n"
| "name (NavigableString s) = []"

fun is_tag :: "node \<Rightarrow> bool" where
  "is_tag (Tag i n a cs) = True"
| "is_tag (NavigableString s) = False"

text \<open>\<^verbatim>\<open>el.find_all(names, recursive=False)\<close>: the child tags with one of the names.\<close>

definition find_all_direct :: "pystr list \<Rightarrow> node \<Rightarrow> node list" where
  "find_all_direct names el = filter (\<lambda>c. is_tag c \<and> name c \<in> set names) (contents el)"

text \<open>The strings below a node in document order, which \<^verbatim>\<open>get_text\<close> joins.\<close>

fun strings :: "node \<Rightarrow> pystr list" where
  "strings (NavigableString s) = [s]"
| "strings (Tag i n a cs) = concat (map strings cs)"

definition get_text :: "pystr \<Rightarrow> node \<Rightarrow> pystr" where
  "get_text sep el = join sep (strings el)"

text \<open>\<^verbatim>\<open>el.get_text(sep, strip=True)\<close>: every string stripped, the empty ones left out.\<close>

definition get_text_strip :: "pystr \<Rightarrow> node \<Rightarrow> pystr" where
  "get_text_strip sep el = join sep (filter (\<lambda>s. s \<noteq> []) (map strip (strings el)))"

text \<open>
  The loop of \<^verbatim>\<open>extract_plain_text\<close> over \<^verbatim>\<open>el.find_all("a", href=True)\<close>: a link becomes the
  string \<^verbatim>\<open>"<text> (<href>)"\<close>.  A link inside a replaced link has left the tree with it.
\<close>

fun replace_links :: "node \<Rightarrow> node" where
  "replace_links (NavigableString s) = NavigableString s"
| "replace_links (Tag i n a cs) =
     (case (if n = u ''a'' then map_of a (u ''href'') else None) of
        Some href \<Rightarrow>
          NavigableString (get_text_strip (u '' '') (Tag i n a cs) @ u '' ('' @ href @ u '')'')
      | None \<Rightarrow> Tag i n a (map replace_links cs))"

fun extract_plain_text :: "node \<Rightarrow> pystr" where
  "extract_plain_text (Tag i n a cs) = norm_ws (get_text (u '' '') (Tag i n a (map replace_links cs)))"
| "extract_plain_text (NavigableString s) = norm_ws s"

section \<open>Lists\<close>

definition is_list :: "node \<Rightarrow> bool" where
  "is_list c \<longleftrightarrow> is_tag c \<and> (name c = u ''ul'' \<or> name c = u ''ol'')"

text \<open>\<^verbatim>\<open>for sub in li_clone.find_all(["ul", "ol"]): sub.decompose()\<close>: every list below goes.\<close>

fun decompose_lists :: "node \<Rightarrow> node" where
  "decompose_lists (NavigableString s) = NavigableString s"
| "decompose_lists (Tag i n a cs) = Tag i n a (map decompose_lists (filter (\<lambda>c. \<not> is_list c) cs))"

text \<open>
  \<^verbatim>\<open>BeautifulSoup(str(li), "html.parser")\<close>: a document of its own whose only child is a
  copy of the item.
\<close>

definition li_clone :: "node \<Rightarrow> node" where
  "li_clone li = Tag 0 (u ''[document]'') [] [li]"

definition li_text :: "node \<Rightarrow> pystr" where
  "li_text li = extract_plain_text (decompose_lists (li_clone li))"

lemma size_find_all_direct: "c \<in> set (find_all_direct ns el) \<Longrightarrow> size c < size el"
  by (cases el) (auto simp: find_all_direct_def less_Suc_eq_le size_list_estimation')

text \<open>\<^verbatim>\<open>emit_list_blocks\<close>, as the blocks it appends.\<close>

function emit_list_blocks :: "node \<Rightarrow> pystr list \<Rightarrow> block list" where
  "emit_list_blocks (Tag i n a cs) trail =
     concat (map (\<lambda>li.
        (trail, u ''- '' @ li_text li) #
        concat (map (\<lambda>sub_list. emit_list_blocks sub_list (trail @ [shorten_label (li_text li) 80]))
                  (find_all_direct [u ''ul'', u ''ol''] li)))
       (find_all_direct [u ''li''] (Tag i n a cs)))"
| "emit_list_blocks (NavigableString s) trail = []"
  by pat_completeness auto
termination
  by (relation "measure (\<lambda>(n, t). size n)") (auto dest!: size_find_all_direct)

text \<open>\<^verbatim>\<open>walk_list\<close> of \<^verbatim>\<open>list_to_lines\<close>, as the lines it appends.\<close>

function walk_list :: "node \<Rightarrow> nat \<Rightarrow> pystr list" where
  "walk_list (Tag i n a cs) indent =
     concat (map (\<lambda>li.
        (let txt = li_text li;
             bullet = (if txt \<noteq> [] then concat (replicate indent (u ''  '')) @ u ''- '' @ txt else [])
         in (if bullet \<noteq> [] then [bullet] else []) @
            concat (map (\<lambda>sub_list. walk_list sub_list (indent + 1))
                      (find_all_direct [u ''ul'', u ''ol''] li))))
       (find_all_direct [u ''li''] (Tag i n a cs)))"
| "walk_list (NavigableString s) indent = []"
  by pat_completeness auto
termination
  by (relation "measure (\<lambda>(n, t). size n)") (auto dest!: size_find_all_direct)

definition list_to_lines :: "node \<Rightarrow> pystr list" where
  "list_to_lines root_list = walk_list root_list 0"

section \<open>Headings and question/answer markers\<close>

text \<open>
  One step of the loop of \<^verbatim>\<open>is_bold_heading_p\<close> over \<^verbatim>\<open>p.children\<close>; \<open>pname\<close> is
  \<^verbatim>\<open>child.parent.name\<close>, the name of the paragraph itself.
\<close>

fun heading_child_ok :: "pystr \<Rightarrow> node \<Rightarrow> bool" where
  "heading_child_ok pname (NavigableString s) \<longleftrightarrow> norm_ws s = [] \<or> norm_ws s = [160]"
| "heading_child_ok pname (Tag i n a cs) \<longleftrightarrow>
     (n = u ''strong'' \<or> n = u ''br'') \<or> (n = u ''u'' \<and> pname = u ''strong'')"

fun is_bold_heading_p :: "node \<Rightarrow> bool" where
  "is_bold_heading_p (Tag i n a cs) \<longleftrightarrow>
     n = u ''p'' \<and> find_all_direct [u ''strong''] (Tag i n a cs) \<noteq> [] \<and>
     list_all (heading_child_ok n) cs"
| "is_bold_heading_p (NavigableString s) \<longleftrightarrow> False"

text \<open>
  \<^verbatim>\<open>re.sub(r"\s*:\s*$", "", t)\<close>: the match, if any, is a colon with the whitespace
  around it that reaches the end of the string.
\<close>

definition strip_trailing_colon :: "pystr \<Rightarrow> pystr" where
  "strip_trailing_colon t =
     (let r = rstrip t in if r \<noteq> [] \<and> last r = 58 then rstrip (butlast r) else t)"

definition heading_text :: "node \<Rightarrow> pystr" where
  "heading_text el = strip_trailing_colon (extract_plain_text el)"

text \<open>
  The patterns \<^verbatim>\<open>^\s*[Qq]\s*[:.\-]\s+\<close>, \<^verbatim>\<open>^\s*[Aa]\s*[:.\-]\s+\<close> and \<^verbatim>\<open>^\s*[QqAa]\s*[:.\-]\s+\<close>
  differ in the letters only: \<open>match_marker\<close> returns what follows the match.
\<close>

definition match_marker :: "nat list \<Rightarrow> pystr \<Rightarrow> pystr option" where
  "match_marker letters t =
     (case dropWhile is_space t of
        [] \<Rightarrow> None
      | c # r \<Rightarrow>
          if c \<in> set letters then
            (case dropWhile is_space r of
               [] \<Rightarrow> None
             | d # r' \<Rightarrow>
                 if (d = 58 \<or> d = 46 \<or> d = 45) \<and> takeWhile is_space r' \<noteq> []
                 then Some (dropWhile is_space r') else None)
          else None)"

definition is_question_text :: "pystr \<Rightarrow> bool" where
  "is_question_text t \<longleftrightarrow> match_marker [81, 113] t \<noteq> None"

definition is_answer_text :: "pystr \<Rightarrow> bool" where
  "is_answer_text t \<longleftrightarrow> match_marker [65, 97] t \<noteq> None"

definition strip_q_or_a_prefix :: "pystr \<Rightarrow> pystr" where
  "strip_q_or_a_prefix t =
     strip (case match_marker [81, 113, 65, 97] t of Some r \<Rightarrow> r | None \<Rightarrow> t)"

section \<open>Multi-line normalization\<close>

text \<open>\<^verbatim>\<open>s.replace("\r\n", "\n").replace("\r", "\n")\<close>.\<close>

fun replace_crlf :: "pystr \<Rightarrow> pystr" where
  "replace_crlf (c # d # cs) =
     (if c = 13 \<and> d = 10 then 10 # replace_crlf cs else c # replace_crlf (d # cs))"
| "replace_crlf cs = cs"

definition replace_cr :: "pystr \<Rightarrow> pystr" where
  "replace_cr s = map (\<lambda>c. if c = 13 then 10 else c) s"

text \<open>The loop of \<^verbatim>\<open>norm_multiline\<close> that keeps one blank line of every run of them.\<close>

fun collapse_blank :: "bool \<Rightarrow> pystr list \<Rightarrow> pystr list" where
  "collapse_blank prev_blank [] = []"
| "collapse_blank prev_blank (ln # lns) =
     (if ln = [] then (if \<not> prev_blank then [[]] else []) @ collapse_blank True lns
      else ln # collapse_blank False lns)"

definition norm_multiline :: "pystr \<Rightarrow> pystr" where
  "norm_multiline s =
     strip (join NL (collapse_blank False (map norm_ws (split_nl (replace_cr (replace_crlf s))))))"

section \<open>Block extractor\<close>

text \<open>
  The variables that the closures of \<^verbatim>\<open>build_blocks_from_html\<close> share, and \<open>detached\<close>: the
  tags that \<^verbatim>\<open>node.extract()\<close> has taken out of the tree.  BeautifulSoup's \<^verbatim>\<open>extract\<close>
  removes the node from its parent's contents, links its former neighbours to each
  other, and sets the node's own \<^verbatim>\<open>parent\<close>, \<^verbatim>\<open>previous_sibling\<close> and \<^verbatim>\<open>next_sibling\<close>
  to \<^verbatim>\<open>None\<close>.
\<close>

record builder =
  blocks :: "block list"
  breadcrumb :: "pystr list"
  skipped_ids :: "nat set"
  detached :: "nat set"

fun is_detached :: "nat set \<Rightarrow> node \<Rightarrow> bool" where
  "is_detached det (Tag i n a cs) \<longleftrightarrow> i \<in> det"
| "is_detached det (NavigableString s) \<longleftrightarrow> False"

text \<open>
  A node is handled together with the siblings that followed it in the parsed tree.
  \<^verbatim>\<open>node.next_sibling\<close> is \<^verbatim>\<open>None\<close> for an extracted node, and otherwise the first
  following sibling that has not been extracted, with the siblings after that one.
\<close>

fun first_attached :: "nat set \<Rightarrow> node list \<Rightarrow> (node \<times> node list) option" where
  "first_attached det [] = None"
| "first_attached det (n # rest) =
     (if is_detached det n then first_attached det rest else Some (n, rest))"

definition next_sibling :: "nat set \<Rightarrow> node \<Rightarrow> node list \<Rightarrow> (node \<times> node list) option" where
  "next_sibling det node following =
     (if is_detached det node then None else first_attached det following)"

text \<open>Truth value of a node: a tag is true, a string is true unless empty.\<close>

fun truthy :: "node \<Rightarrow> bool" where
  "truthy (Tag i n a cs) \<longleftrightarrow> True"
| "truthy (NavigableString s) \<longleftrightarrow> s \<noteq> []"

text \<open>\<^verbatim>\<open>consumed.append(id(node)); skipped_ids.add(id(node)); node.extract()\<close>.\<close>

definition consume :: "nat \<Rightarrow> builder \<Rightarrow> builder" where
  "consume i st = st\<lparr>skipped_ids := insert i (skipped_ids st), detached := insert i (detached st)\<rparr>"

definition push_block :: "pystr \<Rightarrow> builder \<Rightarrow> builder" where
  "push_block text st =
     (let t = (if 10 \<in> set text then norm_multiline text else norm_ws text)
      in if t \<noteq> [] then st\<lparr>blocks := blocks st @ [(breadcrumb st, t)]\<rparr> else st)"

lemma first_attached_shorter:
  "first_attached det following = Some (n, rest) \<Longrightarrow> length rest < length following"
  by (induction following) (auto split: if_splits)

text \<open>
  The loop of \<^verbatim>\<open>collect_answer_content\<close>: \<open>crumb\<close> is its argument
  \<^verbatim>\<open>current_breadcrumb\<close>, \<open>node\<close> comes with the siblings after it, then the lines
  so far and the state; it returns the lines and the state.  Every \<^verbatim>\<open>continue\<close> goes
  back to the test \<^verbatim>\<open>while node and node.next_sibling\<close>.
\<close>

function collect_loop ::
  "pystr list \<Rightarrow> node \<Rightarrow> node list \<Rightarrow> pystr list \<Rightarrow> builder \<Rightarrow> pystr list \<times> builder" where
  "collect_loop crumb node following lines st =
     (case (if truthy node then next_sibling (detached st) node following else None) of
        None \<Rightarrow> (lines, st)
      | Some (nxt, rest) \<Rightarrow>
         (if \<not> truthy nxt then (lines, st)
          else case nxt of
            NavigableString s \<Rightarrow> collect_loop crumb nxt rest lines st
          | Tag i n a cs \<Rightarrow>
              if i \<in> skipped_ids st then collect_loop crumb nxt rest lines st
              else if n = u ''p'' \<and> is_bold_heading_p nxt then
                (if crumb \<noteq> [] \<and>
                    norm_ws (heading_text nxt) = norm_ws (hd crumb)
                 then collect_loop crumb nxt rest lines (consume i st)
                 else (lines, st))
              else if n = u ''p'' then
                (let txt = extract_plain_text nxt
                 in if is_question_text txt then (lines, st)
                    else (let txt' = (if is_answer_text txt then strip_q_or_a_prefix txt else txt)
                          in collect_loop crumb nxt rest
                               (if norm_ws txt' \<noteq> [] then lines @ [txt'] else lines)
                               (consume i st)))
              else if n = u ''ul'' \<or> n = u ''ol'' then
                collect_loop crumb nxt rest (lines @ list_to_lines nxt) (consume i st)
              else (lines, st)))"
  by pat_completeness auto
termination
  by (relation "measure (\<lambda>(cb, node, following, lines, st). length following)")
    (auto simp: next_sibling_def split: if_splits dest: first_attached_shorter)

declare collect_loop.simps [simp del]

text \<open>\<^verbatim>\<open>collect_answer_content(start, crumb)\<close>: the answer text and the state.\<close>

definition collect_answer_content ::
  "node \<Rightarrow> node list \<Rightarrow> pystr list \<Rightarrow> builder \<Rightarrow> pystr \<times> builder" where
  "collect_answer_content start following crumb st =
     (let r = collect_loop crumb start following [] st
      in (strip (join NL (fst r)), snd r))"

text \<open>The children of a node, each with the siblings after it.\<close>

fun with_siblings :: "node list \<Rightarrow> (node \<times> node list) list" where
  "with_siblings [] = []"
| "with_siblings (c # cs) = (c, cs) # with_siblings cs"

text \<open>\<^verbatim>\<open>list(el.children)\<close>: the contents that are still in the tree.\<close>

definition children :: "nat set \<Rightarrow> node list \<Rightarrow> (node \<times> node list) list" where
  "children det cs = filter (\<lambda>c. \<not> is_detached det (fst c)) (with_siblings cs)"

text \<open>A question paragraph: the branch \<^verbatim>\<open>if is_question_text(p_txt)\<close> of the main loop.\<close>

definition question_block :: "nat \<Rightarrow> node \<Rightarrow> node list \<Rightarrow> pystr \<Rightarrow> builder \<Rightarrow> builder" where
  "question_block i el following p_txt st =
     (let q_text = strip_q_or_a_prefix p_txt;
          r = collect_answer_content el following (breadcrumb st) st;
          a_text = fst r;
          st1 = (if a_text \<noteq> [] then push_block (u ''Q: '' @ q_text @ NL @ u ''A: '' @ a_text) (snd r)
                 else push_block (u ''Q: '' @ q_text) (snd r))
      in st1\<lparr>skipped_ids := insert i (skipped_ids st1)\<rparr>)"

lemma size_children:
  "sum_list (map (\<lambda>e. Suc (size (fst e))) (children det cs)) < Suc (Suc (size_list size cs))"
proof -
  have "sum_list (map (\<lambda>e. Suc (size (fst e))) (filter P (with_siblings cs))) \<le> size_list size cs"
    for P
    by (induction cs) auto
  from this [of "\<lambda>c. \<not> is_detached det (fst c)"] show ?thesis
    by (simp add: children_def)
qed

text \<open>
  The loop \<^verbatim>\<open>while stack\<close> of \<^verbatim>\<open>build_blocks_from_html\<close>; an element of the stack
  comes with the siblings that followed it in the parsed tree.
\<close>

function walk :: "(node \<times> node list) list \<Rightarrow> builder \<Rightarrow> builder" where
  "walk [] st = st"
| "walk ((NavigableString s, following) # stack) st = walk stack st"
| "walk ((Tag i n a cs, following) # stack) st =
     (if i \<in> skipped_ids st then walk stack st
      else if n = u ''p'' \<and> is_bold_heading_p (Tag i n a cs) then
        walk stack (st\<lparr>breadcrumb := [heading_text (Tag i n a cs)]\<rparr>)
      else if n = u ''ul'' \<or> n = u ''ol'' then
        walk stack (st\<lparr>blocks := blocks st @ emit_list_blocks (Tag i n a cs) (breadcrumb st)\<rparr>)
      else if n = u ''p'' then
        (let p_txt = extract_plain_text (Tag i n a cs)
         in if is_question_text p_txt
            then walk stack (question_block i (Tag i n a cs) following p_txt st)
            else walk stack (if norm_ws p_txt \<noteq> [] then push_block p_txt st else st))
      else walk (children (detached st) cs @ stack) st)"
  by pat_completeness auto
termination
  by (relation "measure (\<lambda>(stack, st). sum_list (map (\<lambda>e. Suc (size (fst e))) stack))")
    (simp_all add: size_children)

text \<open>The nodes below a node in document order.\<close>

fun descendants :: "node \<Rightarrow> node list" where
  "descendants (NavigableString s) = []"
| "descendants (Tag i n a cs) = concat (map (\<lambda>c. c # descendants c) cs)"

text \<open>\<^verbatim>\<open>soup.body\<close>: the first tag named \<^verbatim>\<open>body\<close>, if there is one.\<close>

definition body :: "node \<Rightarrow> node option" where
  "body soup = find (\<lambda>c. is_tag c \<and> name c = u ''body'') (descendants soup)"

text \<open>
  \<^verbatim>\<open>soup.body.find_all(recursive=False) if soup.body else soup.find_all(recursive=False)\<close>:
  the child tags of the body, or of the document.
\<close>

definition top_level :: "node \<Rightarrow> (node \<times> node list) list" where
  "top_level soup =
     filter (\<lambda>e. is_tag (fst e))
       (with_siblings (contents (case body soup of Some b \<Rightarrow> b | None \<Rightarrow> soup)))"

definition builder_init :: builder where
  "builder_init = \<lparr>blocks = [], breadcrumb = [], skipped_ids = {}, detached = {}\<rparr>"

text \<open>
  \<^verbatim>\<open>build_blocks_from_html\<close>, from the parsed document on, in which the first pass has
  already replaced every table by its paragraph.
\<close>

definition build_blocks_from_html :: "node \<Rightarrow> block list" where
  "build_blocks_from_html soup =
     blocks (foldl (\<lambda>st top. walk [top] st) builder_init (top_level soup))"

text \<open>One document of \<^verbatim>\<open>process_files\<close>: extract, pack with \<^verbatim>\<open>MAX_CHARS\<close>, write.\<close>

definition process_file ::
  "wrapper \<Rightarrow> int \<Rightarrow> pystr \<Rightarrow> pystr \<Rightarrow> pystr option \<Rightarrow> node \<Rightarrow> pystr" where
  "process_file wrap max_chars base_name run_tag url soup =
     write_ctxt base_name run_tag url
       (chunk_blocks wrap (build_blocks_from_html soup) max_chars)"

section \<open>Notions used to state the properties\<close>

text \<open>A string is single-spaced when its only whitespace is isolated U+0020.\<close>

fun single_spaced :: "pystr \<Rightarrow> bool" where
  "single_spaced [] = True"
| "single_spaced (c # cs) =
     ((is_space c \<longrightarrow> c = 32 \<and> (cs = [] \<or> \<not> is_space (hd cs))) \<and> single_spaced cs)"


text \<open>The length the packer counts for a buffer: every line and one separator each.\<close>

definition lines_len :: "pystr list \<Rightarrow> int" where
  "lines_len ls = sum_list (map (\<lambda>l. int (length l) + 1) ls)"




text \<open>The maximal runs of consecutive blocks that have the same breadcrumb path.\<close>

fun path_runs :: "block list \<Rightarrow> block list list" where
  "path_runs [] = []"
| "path_runs (b # bs) =
     (case path_runs bs of
        [] \<Rightarrow> [[b]]
      | r # rs \<Rightarrow> if fst (hd r) = fst b then (b # r) # rs else [b] # r # rs)"



section \<open>Properties of the text normalizer\<close>

lemma is_space_32: "is_space 32"
  by (simp add: is_space_def)

lemma sub_ws_hd: "\<not> is_space c \<Longrightarrow> sub_ws (c # cs) = c # sub_ws cs"
  by simp

lemma hd_dropWhile_space: "dropWhile is_space cs \<noteq> [] \<Longrightarrow> \<not> is_space (hd (dropWhile is_space cs))"
  by (rule hd_dropWhile)

lemma sub_ws_Nil_iff: "sub_ws s = [] \<longleftrightarrow> s = []"
  by (cases s) simp_all

lemma hd_sub_ws: "s \<noteq> [] \<Longrightarrow> \<not> is_space (hd s) \<Longrightarrow> hd (sub_ws s) = hd s"
  by (cases s) simp_all

lemma single_spaced_sub_ws: "single_spaced (sub_ws s)"
proof (induction s rule: sub_ws.induct)
  case 1
  show ?case by simp
next
  case (2 c cs)
  show ?case
  proof (cases "is_space c")
    case True
    let ?r = "dropWhile is_space cs"
    have "sub_ws ?r = [] \<or> \<not> is_space (hd (sub_ws ?r))"
    proof (cases "?r = []")
      case True
      have "sub_ws ?r = []" unfolding True by simp
      then show ?thesis ..
    next
      case False
      then have "\<not> is_space (hd ?r)" by (rule hd_dropWhile_space)
      with False show ?thesis by (simp add: hd_sub_ws)
    qed
    with True 2 show ?thesis by simp
  next
    case False
    with 2 show ?thesis by simp
  qed
qed

lemma sub_ws_single_spaced: "single_spaced s \<Longrightarrow> sub_ws s = s"
proof (induction s)
  case Nil
  show ?case by simp
next
  case (Cons c cs)
  show ?case
  proof (cases "is_space c")
    case True
    with Cons.prems have c: "c = 32" and h: "cs = [] \<or> \<not> is_space (hd cs)" by simp_all
    from h have "dropWhile is_space cs = cs" by (cases cs) auto
    with True c Cons show ?thesis by simp
  next
    case False
    with Cons show ?thesis by simp
  qed
qed

lemma single_spaced_append_left: "single_spaced (xs @ ys) \<Longrightarrow> single_spaced xs"
proof (induction xs)
  case Nil
  show ?case by simp
next
  case (Cons x xs)
  then show ?case by (cases xs) auto
qed

lemma single_spaced_dropWhile: "single_spaced s \<Longrightarrow> single_spaced (dropWhile P s)"
  by (induction s) auto

lemma rstrip_prefix: "rstrip s @ rev (takeWhile is_space (rev s)) = s"
proof -
  have "rev (takeWhile is_space (rev s) @ dropWhile is_space (rev s)) = s"
    by simp
  then show ?thesis unfolding rstrip_def rev_append by simp
qed

lemma single_spaced_rstrip: "single_spaced s \<Longrightarrow> single_spaced (rstrip s)"
  using single_spaced_append_left [of "rstrip s" "rev (takeWhile is_space (rev s))"]
  by (simp add: rstrip_prefix)

lemma single_spaced_strip: "single_spaced s \<Longrightarrow> single_spaced (strip s)"
  by (simp add: strip_def lstrip_def single_spaced_rstrip single_spaced_dropWhile)

lemma rstrip_idem: "rstrip (rstrip s) = rstrip s"
  by (simp add: rstrip_def)

lemma rstrip_Cons: "\<not> is_space x \<Longrightarrow> rstrip (x # xs) = x # rstrip xs"
  by (simp add: rstrip_def dropWhile_append)

lemma lstrip_rstrip_lstrip: "lstrip (rstrip (lstrip s)) = rstrip (lstrip s)"
proof (cases "lstrip s")
  case Nil
  show ?thesis unfolding Nil by (simp add: rstrip_def lstrip_def)
next
  case (Cons x xs)
  then have "\<not> is_space x"
    using hd_dropWhile [of is_space s] by (simp add: lstrip_def)
  with Cons show ?thesis by (simp add: rstrip_Cons) (simp add: lstrip_def)
qed

lemma strip_idem: "strip (strip s) = strip s"
  by (simp add: strip_def lstrip_rstrip_lstrip rstrip_idem)

text \<open>
  Claim C9.  Inline normalization is idempotent: for every string \<open>s\<close>,
  \<^verbatim>\<open>norm_ws(norm_ws(s)) == norm_ws(s)\<close>, where \<^verbatim>\<open>norm_ws\<close> replaces every whitespace run
  (newlines included) by one space and strips both ends.
\<close>

theorem norm_ws_idempotent: "norm_ws (norm_ws s) = norm_ws s"
proof -
  have "single_spaced (strip (sub_ws s))"
    by (rule single_spaced_strip) (rule single_spaced_sub_ws)
  then have "sub_ws (strip (sub_ws s)) = strip (sub_ws s)"
    by (rule sub_ws_single_spaced)
  then show ?thesis by (simp add: norm_ws_def strip_idem)
qed


lemma length_rstrip: "length (rstrip s) \<le> length s"
  using length_dropWhile_le [of is_space "rev s"] by (simp add: rstrip_def)








text \<open>
  The boundary search runs over the reversed prefix with the pattern unreversed, so
  it finds a punctuation character that follows whitespace; a comma followed by a
  space is not found, and the label is hard-cut.
\<close>

lemma shorten_label_comma_space:
  "shorten_label (u ''alpha, beta gamma delta'') 15 = u ''alpha, beta gam'' @ [ELLIPSIS]"
  by (simp add: u_def shorten_label_def slice_to_def norm_ws_def strip_def lstrip_def
      rstrip_def is_space_def is_punct_def)

lemma shorten_label_space_dash:
  "shorten_label (u ''alpha, beta - gamma delta'') 20 = u ''alpha, beta -'' @ [ELLIPSIS]"
  by (simp add: u_def shorten_label_def slice_to_def norm_ws_def strip_def lstrip_def
      rstrip_def is_space_def is_punct_def)

section \<open>Properties of the chunk packer\<close>



















lemmas str_eval = u_def norm_ws_def strip_def lstrip_def rstrip_def is_space_def is_punct_def
  shorten_label_def slice_to_def NL_def

lemmas packer_eval = chunk_blocks_def chunk_block_def add_line_def start_new_chunk_def
  flush_def packer_init_def chunk_text_def breadcrumb_header_def is_qa_block_def startswith_def
  wrapped_def wrap_fitting_def add_text_line_def bullet_prefix_def Let_def




lemma lines_len_Cons: "lines_len (x # xs) = int (length x) + 1 + lines_len xs"
  by (simp add: lines_len_def)


lemma lines_len_rstrip: "lines_len (map rstrip ls) \<le> lines_len ls"
proof (induction ls)
  case Nil
  show ?case by simp
next
  case (Cons l ls)
  with length_rstrip [of l] show ?case by (simp add: lines_len_Cons)
qed
















text \<open>With limit 9 the Q/A text of 9 characters is split: its last separator is counted too.\<close>

lemma qa_block_exact_length_splits:
  "chunk_blocks wrap_fitting [([], u ''Q: a'' @ NL @ u ''A: b'')] 9 = [u ''Q: a'', u ''A: b'']"
  by (simp add: packer_eval str_eval)

subsection \<open>Headers\<close>





























lemma path_runs_nonempty: "r \<in> set (path_runs bs) \<Longrightarrow> r \<noteq> []"
  by (induction bs arbitrary: r) (auto split: list.splits if_splits)


lemma path_runs_Nil_iff: "path_runs bs = [] \<longleftrightarrow> bs = []"
  by (cases bs) (auto split: list.splits)

lemma path_runs_hd: "bs \<noteq> [] \<Longrightarrow> hd (hd (path_runs bs)) = hd bs"
  by (cases bs) (auto split: list.splits)


lemma chunk_blocks_Nil: "chunk_blocks wrap [] limit = []"
  by (simp add: chunk_blocks_def flush_def packer_init_def)





section \<open>Properties of the block extractor\<close>

text \<open>The loop of \<^verbatim>\<open>collect_answer_content\<close>, unfolded along the siblings.\<close>

lemma collect_loop_Nil: "collect_loop crumb node [] lines st = (lines, st)"
  by (subst collect_loop.simps) (simp add: next_sibling_def)

lemma collect_loop_Cons:
  "collect_loop crumb node (nxt # rest) lines st =
     (if \<not> truthy node \<or> is_detached (detached st) node then (lines, st)
      else if is_detached (detached st) nxt then collect_loop crumb node rest lines st
      else if \<not> truthy nxt then (lines, st)
      else case nxt of
            NavigableString s \<Rightarrow> collect_loop crumb nxt rest lines st
          | Tag i n a cs \<Rightarrow>
              if i \<in> skipped_ids st then collect_loop crumb nxt rest lines st
              else if n = u ''p'' \<and> is_bold_heading_p nxt then
                (if crumb \<noteq> [] \<and> norm_ws (heading_text nxt) = norm_ws (hd crumb)
                 then collect_loop crumb nxt rest lines (consume i st)
                 else (lines, st))
              else if n = u ''p'' then
                (let txt = extract_plain_text nxt
                 in if is_question_text txt then (lines, st)
                    else (let txt' = (if is_answer_text txt then strip_q_or_a_prefix txt else txt)
                          in collect_loop crumb nxt rest
                               (if norm_ws txt' \<noteq> [] then lines @ [txt'] else lines)
                               (consume i st)))
              else if n = u ''ul'' \<or> n = u ''ol'' then
                collect_loop crumb nxt rest (lines @ list_to_lines nxt) (consume i st)
              else (lines, st))"
  by (subst collect_loop.simps, subst (2) collect_loop.simps) (simp add: next_sibling_def)

lemmas dom_eval = find_all_direct_def li_text_def li_clone_def is_list_def get_text_def
  get_text_strip_def build_blocks_from_html_def top_level_def body_def builder_init_def
  question_block_def collect_answer_content_def push_block_def consume_def children_def
  heading_text_def strip_trailing_colon_def collect_loop_Nil collect_loop_Cons
  is_question_text_def is_answer_text_def strip_q_or_a_prefix_def match_marker_def
  norm_multiline_def replace_cr_def list_to_lines_def Let_def

text \<open>Once \<^verbatim>\<open>node.extract()\<close> has run on the node of the loop, the loop is over.\<close>

lemma collect_loop_extracted:
  "i \<in> detached st \<Longrightarrow> collect_loop crumb (Tag i n a cs) following lines st = (lines, st)"
  by (subst collect_loop.simps) (simp add: next_sibling_def)

text \<open>
  Claim C1 on the document \<^verbatim>\<open><p>Q: What is covered?</p><p>A: Dental.</p><p>Vision too.</p>\<close>:
  a question paragraph followed by two qualifying siblings.  The first sibling is
  consumed and extracted; the test \<^verbatim>\<open>node.next_sibling\<close> on the extracted node then ends
  the loop, the second sibling is not consumed, and the main loop emits it as a
  block of its own.
\<close>

theorem qa_pairer_stops_after_first_sibling:
  "build_blocks_from_html (Tag 0 (u ''[document]'') []
     [Tag 1 (u ''p'') [] [NavigableString (u ''Q: What is covered?'')],
      Tag 2 (u ''p'') [] [NavigableString (u ''A: Dental.'')],
      Tag 3 (u ''p'') [] [NavigableString (u ''Vision too.'')]]) =
   [([], u ''Q: What is covered?'' @ NL @ u ''A: Dental.''), ([], u ''Vision too.'')]"
  by (simp add: dom_eval str_eval)

lemma walk_list_item:
  assumes "\<not> i \<in> skipped_ids st" and "n = u ''ul'' \<or> n = u ''ol''"
  shows "walk [(Tag i n a cs, following)] st =
    st\<lparr>blocks := blocks st @ emit_list_blocks (Tag i n a cs) (breadcrumb st)\<rparr>"
proof -
  from assms(2) have "n \<noteq> u ''p''" by (auto simp: u_def)
  with assms show ?thesis by simp
qed

lemma emit_list_blocks_item:
  assumes "li \<in> set (find_all_direct [u ''li''] (Tag i n a cs))"
  shows "(trail, u ''- '' @ li_text li) \<in> set (emit_list_blocks (Tag i n a cs) trail)"
  using assms by (simp del: append.simps) force

text \<open>
  Claim C10.  A list item whose extracted text is empty still gets its block: the
  blocks of a list with such an item hold \<^verbatim>\<open>"- "\<close> under the trail, and so do the
  blocks after the main loop has met the list under the current breadcrumb.  A
  paragraph (no heading) whose extracted text is empty leaves the blocks as they are.
\<close>

theorem empty_list_item_block:
  "(li \<in> set (find_all_direct [u ''li''] (Tag i n a cs)) \<and> li_text li = [] \<longrightarrow>
      (trail, u ''- '') \<in> set (emit_list_blocks (Tag i n a cs) trail)) \<and>
   (li \<in> set (find_all_direct [u ''li''] (Tag i n a cs)) \<and> li_text li = [] \<and>
    \<not> i \<in> skipped_ids st \<and> (n = u ''ul'' \<or> n = u ''ol'') \<longrightarrow>
      (breadcrumb st, u ''- '') \<in> set (blocks (walk [(Tag i n a cs, following)] st))) \<and>
   (\<not> j \<in> skipped_ids st \<and> \<not> is_bold_heading_p (Tag j (u ''p'') a' cs') \<and>
    extract_plain_text (Tag j (u ''p'') a' cs') = [] \<longrightarrow>
      blocks (walk [(Tag j (u ''p'') a' cs', following)] st) = blocks st)"
proof (intro conjI impI)
  assume a: "li \<in> set (find_all_direct [u ''li''] (Tag i n a cs)) \<and> li_text li = []"
  with emit_list_blocks_item [of li i n a cs trail]
  show "(trail, u ''- '') \<in> set (emit_list_blocks (Tag i n a cs) trail)" by simp
next
  assume a: "li \<in> set (find_all_direct [u ''li''] (Tag i n a cs)) \<and> li_text li = [] \<and>
    \<not> i \<in> skipped_ids st \<and> (n = u ''ul'' \<or> n = u ''ol'')"
  with emit_list_blocks_item [of li i n a cs "breadcrumb st"]
  have "(breadcrumb st, u ''- '') \<in> set (emit_list_blocks (Tag i n a cs) (breadcrumb st))" by simp
  moreover from a have "walk [(Tag i n a cs, following)] st =
      st\<lparr>blocks := blocks st @ emit_list_blocks (Tag i n a cs) (breadcrumb st)\<rparr>"
    by (intro walk_list_item) simp_all
  ultimately show "(breadcrumb st, u ''- '') \<in> set (blocks (walk [(Tag i n a cs, following)] st))"
    by simp
next
  assume a: "\<not> j \<in> skipped_ids st \<and> \<not> is_bold_heading_p (Tag j (u ''p'') a' cs') \<and>
    extract_plain_text (Tag j (u ''p'') a' cs') = []"
  have "\<not> is_question_text []" by (simp add: is_question_text_def match_marker_def)
  moreover have "u ''p'' \<noteq> u ''ul''" "u ''p'' \<noteq> u ''ol''" by (simp_all add: u_def)
  moreover have "norm_ws [] = []" by (simp add: str_eval)
  ultimately show "blocks (walk [(Tag j (u ''p'') a' cs', following)] st) = blocks st"
    using a by (simp del: is_bold_heading_p.simps extract_plain_text.simps)
qed

theorem empty_list_item_block_witness:
  "Tag 2 (u ''li'') [] [] \<in> set (find_all_direct [u ''li''] (Tag 1 (u ''ul'') [] [Tag 2 (u ''li'') [] []])) \<and>
   li_text (Tag 2 (u ''li'') [] []) = [] \<and>
   ([], u ''- '') \<in> set (emit_list_blocks (Tag 1 (u ''ul'') [] [Tag 2 (u ''li'') [] []]) []) \<and>
   ([], u ''- '') \<in> set (blocks (walk [(Tag 1 (u ''ul'') [] [Tag 2 (u ''li'') [] []], [])] builder_init)) \<and>
   blocks (walk [(Tag 3 (u ''p'') [] [], [])] builder_init) = blocks builder_init \<and>
   build_blocks_from_html (Tag 0 (u ''[document]'') []
     [Tag 3 (u ''p'') [] [], Tag 1 (u ''ul'') [] [Tag 2 (u ''li'') [] []]]) = [([], u ''- '')]"
proof -
  have m: "Tag 2 (u ''li'') [] [] \<in>
      set (find_all_direct [u ''li''] (Tag 1 (u ''ul'') [] [Tag 2 (u ''li'') [] []]))"
    by (simp add: find_all_direct_def)
  have e: "li_text (Tag 2 (u ''li'') [] []) = []"
    by (simp add: dom_eval str_eval)
  have s: "\<not> 1 \<in> skipped_ids builder_init" "\<not> 3 \<in> skipped_ids builder_init"
    "breadcrumb builder_init = []"
    by (simp_all add: builder_init_def)
  have p: "\<not> is_bold_heading_p (Tag 3 (u ''p'') [] [])" "extract_plain_text (Tag 3 (u ''p'') [] []) = []"
    by (simp_all add: dom_eval str_eval)
  have b: "build_blocks_from_html (Tag 0 (u ''[document]'') []
     [Tag 3 (u ''p'') [] [], Tag 1 (u ''ul'') [] [Tag 2 (u ''li'') [] []]]) = [([], u ''- '')]"
    by (simp add: dom_eval str_eval)
  from empty_list_item_block [of "Tag 2 (u ''li'') [] []" 1 "u ''ul''" "[]" "[Tag 2 (u ''li'') [] []]"
      "[]" builder_init "[]" 3 "[]" "[]"] m e s p b
  show ?thesis by simp
qed

text \<open>
  Claim C8.  For every document from which no blocks are extracted, the packer
  returns no chunk, and what the writer writes is the preamble alone: the version,
  title and tags lines, the \<^verbatim>\<open>source_url\<close> line when the metadata has a URL, and the
  blank line.  The model is total: nothing is raised.
\<close>

theorem empty_document_header_only:
  assumes "build_blocks_from_html soup = []"
  shows "chunk_blocks wrap (build_blocks_from_html soup) max_chars = [] \<and>
    process_file wrap max_chars base_name run_tag url soup =
      u ''`version: 1`'' @ NL @
      u ''`title: '' @ base_name @ u ''`'' @ NL @
      u ''`tags: [policies'' @ (if run_tag \<noteq> [] then u '', '' @ run_tag else []) @ u '']`'' @ NL @
      (case url of None \<Rightarrow> [] | Some v \<Rightarrow> u ''`source_url: '' @ v @ u ''`'' @ NL) @
      NL"
  using assms
  by (simp add: process_file_def write_ctxt_def chunk_blocks_Nil u_def split: option.splits)

theorem empty_document_header_only_witness:
  "build_blocks_from_html (Tag 0 (u ''[document]'') [] [Tag 1 (u ''p'') [] [NavigableString (u '' '')]]) = [] \<and>
   chunk_blocks wrap_fitting
     (build_blocks_from_html (Tag 0 (u ''[document]'') [] [Tag 1 (u ''p'') [] [NavigableString (u '' '')]]))
     500 = [] \<and>
   process_file wrap_fitting 500 (u ''leave'') [] None
     (Tag 0 (u ''[document]'') [] [Tag 1 (u ''p'') [] [NavigableString (u '' '')]]) =
     u ''`version: 1`'' @ NL @ u ''`title: leave`'' @ NL @ u ''`tags: [policies]`'' @ NL @ NL"
proof -
  have e: "build_blocks_from_html
      (Tag 0 (u ''[document]'') [] [Tag 1 (u ''p'') [] [NavigableString (u '' '')]]) = []"
    by (simp add: dom_eval str_eval)
  from e empty_document_header_only [OF e, of wrap_fitting 500 "u ''leave''" "[]" None]
  show ?thesis by (simp add: u_def)
qed

subsection \<open>Lists\<close>







subsection \<open>Headings\<close>





lemma lstrip_strip: "lstrip (strip t) = strip t"
  by (simp add: strip_def lstrip_rstrip_lstrip)













text \<open>
  Underline inside the bold wrapper, and a line break beside it, keep the paragraph
  a heading; an underline element beside the bold wrapper does not.
\<close>

lemma heading_underline_examples:
  "is_bold_heading_p (Tag 1 (u ''p'') []
     [Tag 2 (u ''strong'') [] [Tag 3 (u ''u'') [] [NavigableString (u ''Title'')]],
      Tag 4 (u ''br'') [] [], NavigableString (u '' '')]) \<and>
   \<not> is_bold_heading_p (Tag 1 (u ''p'') []
     [Tag 3 (u ''u'') [] [NavigableString (u ''Title'')],
      Tag 2 (u ''strong'') [] [NavigableString (u ''x'')]]) \<and>
   \<not> is_bold_heading_p (Tag 1 (u ''p'') []
     [Tag 2 (u ''strong'') [] [NavigableString (u ''Title'')], NavigableString (u ''tail'')])"
  by (simp add: find_all_direct_def str_eval)

text \<open>
  A bold heading without text, \<^verbatim>\<open><p><strong></strong></p><p>x</p>\<close>, and an item without
  text that holds a list, \<^verbatim>\<open><ul><li><ul><li>Sub</li></ul></li></ul>\<close>: both give blocks
  under the path of one empty label.
\<close>

lemma empty_label_paths:
  "build_blocks_from_html (Tag 0 (u ''[document]'') []
     [Tag 1 (u ''p'') [] [Tag 2 (u ''strong'') [] []],
      Tag 3 (u ''p'') [] [NavigableString (u ''x'')]]) = [([[]], u ''x'')] \<and>
   build_blocks_from_html (Tag 0 (u ''[document]'') []
     [Tag 1 (u ''ul'') []
        [Tag 2 (u ''li'') [] [Tag 3 (u ''ul'') [] [Tag 4 (u ''li'') [] [NavigableString (u ''Sub'')]]]]]) =
     [([], u ''- ''), ([[]], u ''- Sub'')]"
  by (simp add: dom_eval str_eval)

end
